theory Spec2Isabelle
  imports Complex_Main "HOL-Library.Multiset"
begin

section \<open>Data model (src/core/types.ts)\<close>

text \<open>
  JavaScript numbers are modelled as real numbers, and every place where the source divides
  is written out with its zero-divisor case.  The sums of the goal ledger and of the
  spending analytics are read as exact sums.  Where a property is about the digits that
  come out of the arithmetic (currency conversion, the monthly summary), every operation
  and every decimal literal goes through a rounding function \<open>fl\<close> that is a
  parameter of the model: \<open>fl v\<close> is the number that the machine keeps for the
  exact result \<open>v\<close>.  Strings are character lists.  Optional fields are options.
  Identifiers produced by \<^verbatim>\<open>uuidv4()\<close> and the clock read by
  \<^verbatim>\<open>new Date()\<close> are inputs of the operations that use them, and so is what
  the platform's \<^verbatim>\<open>Date\<close> makes of date texts and time zones.
\<close>

datatype txn_type = income | expense

datatype frequency = daily | weekly | monthly | yearly

record Transaction =
  t_id :: string
  t_date :: string
  t_amount :: real
  t_category :: string
  t_description :: string
  t_type :: txn_type
  t_tags :: "string list option"
  t_recurring :: "bool option"
  t_recurringFrequency :: "frequency option"
  t_currency :: "string option"

record RecurringTransaction =
  r_id :: string
  r_amount :: real
  r_type :: txn_type
  r_category :: string
  r_description :: string
  r_frequency :: frequency
  r_startDate :: string
  r_nextDue :: string
  r_lastProcessed :: "string option"
  r_active :: bool
  r_currency :: "string option"

record GoalContribution =
  c_id :: string
  c_amount :: real
  c_date :: string
  c_note :: "string option"

record SavingsGoal =
  g_id :: string
  g_name :: string
  targetAmount :: real
  currentAmount :: real
  deadline :: "string option"
  createdAt :: string
  g_currency :: string
  contributions :: "GoalContribution list"

record Budget =
  b_category :: string
  b_limit :: real
  b_spent :: real
  alertThreshold :: real

datatype account_type = Checking | Savings | Credit | Cash | Investment

record Account =
  a_id :: string
  a_name :: string
  a_type :: account_type
  a_balance :: real
  a_currency :: string

text \<open>A \<^verbatim>\<open>Record<string, number>\<close> of rates is a map from currency codes to numbers.\<close>

type_synonym rate_table = "string \<rightharpoonup> real"

record ExchangeRates =
  x_rates :: rate_table
  x_lastUpdated :: "string option"

definition SUPPORTED_CURRENCIES :: "string list" where
  "SUPPORTED_CURRENCIES =
     [''USD'', ''EUR'', ''GBP'', ''JPY'', ''CAD'', ''AUD'', ''CHF'', ''CNY'', ''INR'',
      ''MXN'', ''BRL'', ''KRW'']"

text \<open>
  The default table as the source writes it, and as the machine holds it: every literal
  rounded by \<open>fl\<close>.
\<close>

definition RATE_LITERALS :: "(string \<times> real) list" where
  "RATE_LITERALS =
     [(''USD'', 1), (''EUR'', 0.92), (''GBP'', 0.79), (''JPY'', 149.50),
      (''CAD'', 1.36), (''AUD'', 1.53), (''CHF'', 0.88), (''CNY'', 7.24),
      (''INR'', 83.12), (''MXN'', 17.15), (''BRL'', 4.97), (''KRW'', 1320.50)]"

definition DEFAULT_EXCHANGE_RATES :: "(real \<Rightarrow> real) \<Rightarrow> rate_table" where
  "DEFAULT_EXCHANGE_RATES fl = map_of (map (\<lambda>(code, r). (code, fl r)) RATE_LITERALS)"

record FinanceData =
  transactions :: "Transaction list"
  budgets :: "Budget list"
  accounts :: "Account list"
  categories :: "string list"
  lastUpdated :: string
  recurringTransactions :: "RecurringTransaction list"
  savingsGoals :: "SavingsGoal list"
  defaultCurrency :: string
  exchangeRates :: "ExchangeRates option"

definition DEFAULT_CATEGORIES :: "string list" where
  "DEFAULT_CATEGORIES =
     [''Food & Dining'', ''Transportation'', ''Shopping'', ''Entertainment'',
      ''Bills & Utilities'', ''Healthcare'', ''Education'', ''Travel'', ''Groceries'',
      ''Subscriptions'', ''Income'', ''Investments'', ''Gifts'', ''Personal Care'',
      ''Home'', ''Other'']"

definition createEmptyFinanceData :: "string \<Rightarrow> FinanceData" where
  "createEmptyFinanceData now =
     \<lparr> transactions = [], budgets = [],
       accounts = [\<lparr> a_id = ''default'', a_name = ''Main Account'', a_type = Checking,
                     a_balance = 0, a_currency = ''USD'' \<rparr>],
       categories = DEFAULT_CATEGORIES, lastUpdated = now,
       recurringTransactions = [], savingsGoals = [],
       defaultCurrency = ''USD'', exchangeRates = None \<rparr>"

section \<open>The document store (src/core/storage.ts)\<close>

text \<open>
  The data file is a value of type \<open>FinanceData option\<close>: \<open>None\<close> is a missing or
  unreadable file.  \<open>loadData\<close> returns the document and the file as it leaves it (a
  missing file is replaced by a saved empty document); \<open>saveData\<close> stamps
  \<open>lastUpdated\<close> and writes.  A write that fails is outside the model.
\<close>

type_synonym store = "FinanceData option"

definition saveData :: "string \<Rightarrow> FinanceData \<Rightarrow> FinanceData \<times> store" where
  "saveData now data = (let d = data\<lparr>lastUpdated := now\<rparr> in (d, Some d))"

definition loadData :: "string \<Rightarrow> store \<Rightarrow> FinanceData \<times> store" where
  "loadData now st =
     (case st of
        Some d \<Rightarrow> (d, st)
      | None \<Rightarrow> saveData now (createEmptyFinanceData now))"

section \<open>Savings goals (src/core/goals.ts)\<close>

definition splitT0 :: "string \<Rightarrow> string" where
  "splitT0 s = takeWhile (\<lambda>c. c \<noteq> CHR ''T'') s"

definition createGoal ::
  "string \<Rightarrow> string \<Rightarrow> string \<Rightarrow> real \<Rightarrow> string option \<Rightarrow> string \<Rightarrow> SavingsGoal" where
  "createGoal uuid now name target dl currency =
     \<lparr> g_id = uuid, g_name = name, targetAmount = target, currentAmount = 0,
       deadline = dl, createdAt = now, g_currency = currency, contributions = [] \<rparr>"

record goal_result =
  success :: bool
  goal :: "SavingsGoal option"
  error :: "string option"

text \<open>
  \<^verbatim>\<open>data.savingsGoals.find(g => g.id === goalId)\<close> yields the first goal with the
  identifier; the source then mutates that object in place, which is the update of the
  first matching element of the list.
\<close>

fun update_first :: "('a \<Rightarrow> bool) \<Rightarrow> ('a \<Rightarrow> 'a) \<Rightarrow> 'a list \<Rightarrow> 'a list" where
  "update_first P f [] = []"
| "update_first P f (x # xs) = (if P x then f x # xs else x # update_first P f xs)"

definition contribute :: "GoalContribution \<Rightarrow> real \<Rightarrow> SavingsGoal \<Rightarrow> SavingsGoal" where
  "contribute c delta g =
     g\<lparr>contributions := contributions g @ [c], currentAmount := currentAmount g + delta\<rparr>"

definition addContribution ::
  "string \<Rightarrow> string \<Rightarrow> store \<Rightarrow> string \<Rightarrow> real \<Rightarrow> string option \<Rightarrow> goal_result \<times> store" where
  "addContribution uuid now st goalId amount note =
     (let (data, st1) = loadData now st in
      case find (\<lambda>g. g_id g = goalId) (savingsGoals data) of
        None \<Rightarrow> (\<lparr>success = False, goal = None, error = Some ''Goal not found''\<rparr>, st1)
      | Some g \<Rightarrow>
          let contribution = \<lparr>c_id = uuid, c_amount = amount, c_date = splitT0 now, c_note = note\<rparr>;
              g' = contribute contribution amount g;
              data' = data\<lparr>savingsGoals :=
                        update_first (\<lambda>g. g_id g = goalId) (\<lambda>_. g') (savingsGoals data)\<rparr>;
              (_, st2) = saveData now data'
          in (\<lparr>success = True, goal = Some g', error = None\<rparr>, st2))"

definition withdrawFromGoal ::
  "string \<Rightarrow> string \<Rightarrow> store \<Rightarrow> string \<Rightarrow> real \<Rightarrow> string option \<Rightarrow> goal_result \<times> store" where
  "withdrawFromGoal uuid now st goalId amount note =
     (let (data, st1) = loadData now st in
      case find (\<lambda>g. g_id g = goalId) (savingsGoals data) of
        None \<Rightarrow> (\<lparr>success = False, goal = None, error = Some ''Goal not found''\<rparr>, st1)
      | Some g \<Rightarrow>
          if amount > currentAmount g
          then (\<lparr>success = False, goal = None, error = Some ''Insufficient funds in goal''\<rparr>, st1)
          else
            let contribution =
                  \<lparr>c_id = uuid, c_amount = - amount, c_date = splitT0 now,
                   c_note = Some (case note of None \<Rightarrow> ''Withdrawal''
                                  | Some n \<Rightarrow> if n = [] then ''Withdrawal'' else n)\<rparr>;
                g' = contribute contribution (- amount) g;
                data' = data\<lparr>savingsGoals :=
                          update_first (\<lambda>g. g_id g = goalId) (\<lambda>_. g') (savingsGoals data)\<rparr>;
                (_, st2) = saveData now data'
            in (\<lparr>success = True, goal = Some g', error = None\<rparr>, st2))"

subsection \<open>Sequences of goal operations and the ledger invariant\<close>







text \<open>A document holding one freshly created goal, used to exercise the theorems.\<close>

definition vacation_goal :: SavingsGoal where
  "vacation_goal = createGoal ''g1'' ''2024-04-01T09:00:00.000Z'' ''Vacation'' 1000 None ''USD''"

definition vacation_data :: FinanceData where
  "vacation_data =
     (createEmptyFinanceData ''2024-04-01T09:00:00.000Z'')\<lparr>savingsGoals := [vacation_goal]\<rparr>"


section \<open>Currency conversion (src/core/currency.ts)\<close>

text \<open>
  The arithmetic without rounding error, and what it means that the rounding of one exact
  result \<open>v\<close> has relative error at most \<open>u\<close>.  IEEE double arithmetic rounds
  every result that neither overflows nor underflows within \<open>u = 2^-53\<close>.
\<close>

definition exact :: "real \<Rightarrow> real" where
  "exact v = v"

definition rounded_within :: "real \<Rightarrow> (real \<Rightarrow> real) \<Rightarrow> real \<Rightarrow> bool" where
  "rounded_within u fl v = (\<bar>fl v - v\<bar> \<le> u * \<bar>v\<bar>)"

text \<open>
  \<^verbatim>\<open>toUpperCase\<close> on the letters \<open>a\<close> to \<open>z\<close>; every other character is kept
  (currency codes are ASCII).
\<close>

definition upper_char :: "char \<Rightarrow> char" where
  "upper_char c =
     (let n = (of_char c :: nat) in if 97 \<le> n \<and> n \<le> 122 then char_of (n - 32) else c)"

definition toUpperCase :: "string \<Rightarrow> string" where
  "toUpperCase s = map upper_char s"

text \<open>
  A JavaScript division yields a finite number only when the divisor is not zero;
  \<open>None\<close> stands for the results \<^verbatim>\<open>Infinity\<close>, \<^verbatim>\<open>-Infinity\<close> and
  \<^verbatim>\<open>NaN\<close>.
\<close>

definition js_div :: "(real \<Rightarrow> real) \<Rightarrow> real \<Rightarrow> real \<Rightarrow> real option" where
  "js_div fl x y = (if y = 0 then None else Some (fl (x / y)))"

text \<open>
  \<^verbatim>\<open>Math.round\<close>: the nearest integer, halves going up.  It is computed without
  rounding error.
\<close>

definition Math_round :: "real \<Rightarrow> real" where
  "Math_round x = of_int \<lfloor>x + 1 / 2\<rfloor>"

text \<open>\<^verbatim>\<open>exchangeRates[code] || 1\<close>: a missing entry and the entry 0 are falsy.\<close>

definition rate_or_1 :: "rate_table \<Rightarrow> string \<Rightarrow> real" where
  "rate_or_1 tbl code = (case tbl code of None \<Rightarrow> 1 | Some r \<Rightarrow> if r = 0 then 1 else r)"

record conversion =
  convertedAmount :: real
  rate :: real

definition convertCurrency ::
  "(real \<Rightarrow> real) \<Rightarrow> real \<Rightarrow> string \<Rightarrow> string \<Rightarrow> rate_table option \<Rightarrow> conversion option" where
  "convertCurrency fl amount fromCurrency toCurrency rates =
     (let exchangeRates = (case rates of None \<Rightarrow> DEFAULT_EXCHANGE_RATES fl | Some r \<Rightarrow> r);
          from = toUpperCase fromCurrency;
          to = toUpperCase toCurrency
      in if from = to then Some \<lparr>convertedAmount = amount, rate = 1\<rparr>
         else
           let fromRate = rate_or_1 exchangeRates from;
               toRate = rate_or_1 exchangeRates to
           in case js_div fl amount fromRate of
                None \<Rightarrow> None
              | Some amountInUSD \<Rightarrow>
                  (let convertedAmount = fl (amountInUSD * toRate)
                   in case js_div fl toRate fromRate of
                        None \<Rightarrow> None
                      | Some r \<Rightarrow>
                          Some \<lparr>convertedAmount =
                                  fl (Math_round (fl (convertedAmount * 100)) / 100),
                                rate = fl (Math_round (fl (r * 10000)) / 10000)\<rparr>))"

text \<open>
  Converting from \<open>A\<close> to \<open>B\<close> and the rounded result back from \<open>B\<close> to \<open>A\<close>;
  the round trip is within \<open>tol\<close> when it yields a number at most \<open>tol\<close> away from
  the amount it started from.
\<close>

definition round_trip ::
  "(real \<Rightarrow> real) \<Rightarrow> real \<Rightarrow> string \<Rightarrow> string \<Rightarrow> rate_table option \<Rightarrow> real option" where
  "round_trip fl x A B rates =
     (case convertCurrency fl x A B rates of
        None \<Rightarrow> None
      | Some there \<Rightarrow>
          (case convertCurrency fl (convertedAmount there) B A rates of
             None \<Rightarrow> None
           | Some back \<Rightarrow> Some (convertedAmount back)))"

definition pivot_consistent ::
  "(real \<Rightarrow> real) \<Rightarrow> real \<Rightarrow> real \<Rightarrow> string \<Rightarrow> string \<Rightarrow> rate_table option \<Rightarrow> bool" where
  "pivot_consistent fl tol x A B rates =
     (case round_trip fl x A B rates of None \<Rightarrow> False | Some z \<Rightarrow> \<bar>z - x\<bar> \<le> tol)"

text \<open>
  The amount that one conversion computes from the source rate \<open>fr\<close> and the target
  rate \<open>tr\<close>, the four exact results that it rounds on the way, and the eight of a
  round trip.
\<close>

definition leg :: "(real \<Rightarrow> real) \<Rightarrow> real \<Rightarrow> real \<Rightarrow> real \<Rightarrow> real" where
  "leg fl x fr tr = fl (Math_round (fl (fl (fl (x / fr) * tr) * 100)) / 100)"

definition leg_operands :: "(real \<Rightarrow> real) \<Rightarrow> real \<Rightarrow> real \<Rightarrow> real \<Rightarrow> real list" where
  "leg_operands fl x fr tr =
     [x / fr, fl (x / fr) * tr, fl (fl (x / fr) * tr) * 100,
      Math_round (fl (fl (fl (x / fr) * tr) * 100)) / 100]"

definition round_trip_operands ::
  "(real \<Rightarrow> real) \<Rightarrow> real \<Rightarrow> real \<Rightarrow> real \<Rightarrow> real list" where
  "round_trip_operands fl x fr tr = leg_operands fl x fr tr @ leg_operands fl (leg fl x fr tr) tr fr"

text \<open>
  An arithmetic that is not exact, to exercise the properties: every result is rounded to
  the nearest multiple of \<open>1/1024\<close>.
\<close>

definition binary10 :: "real \<Rightarrow> real" where
  "binary10 v = of_int \<lfloor>v * 1024 + 1 / 2\<rfloor> / 1024"

section \<open>Calendar dates and their ISO text\<close>

text \<open>
  Dates are kept as text (\<^verbatim>\<open>YYYY-MM-DD\<close>) in the document and compared as
  strings.  A calendar day is a triple of year, month (1 to 12) and day of month.
  \<open>MakeDay\<close> is the carrying of month and day overflow that the setters of
  \<^verbatim>\<open>Date\<close> do, \<open>toISODate\<close> the date part of
  \<^verbatim>\<open>toISOString\<close>.  \<open>parseDate\<close> reads the date-only ISO form with a
  four-digit year the way Node.js does (a day number up to 31 is accepted in every month
  and carried over into the next month; any other text is an invalid date); it is the
  reader of the example platforms below.
\<close>

type_synonym ymd = "nat \<times> nat \<times> nat"

definition leap :: "nat \<Rightarrow> bool" where
  "leap y = ((y mod 4 = 0 \<and> y mod 100 \<noteq> 0) \<or> y mod 400 = 0)"

definition daysInMonth :: "nat \<Rightarrow> nat \<Rightarrow> nat" where
  "daysInMonth y m =
     (if m = 2 then (if leap y then 29 else 28)
      else if m = 4 \<or> m = 6 \<or> m = 9 \<or> m = 11 then 30 else 31)"

function roll_days :: "nat \<Rightarrow> nat \<Rightarrow> nat \<Rightarrow> ymd" where
  "roll_days y m d =
     (if d > daysInMonth y m
      then (if m \<ge> 12 then roll_days (y + 1) 1 (d - daysInMonth y m)
            else roll_days y (m + 1) (d - daysInMonth y m))
      else (y, m, d))"
  by pat_completeness auto
termination
  by (relation "measure (\<lambda>(y, m, d). d)") (auto simp: daysInMonth_def)

definition MakeDay :: "nat \<Rightarrow> nat \<Rightarrow> nat \<Rightarrow> ymd" where
  "MakeDay y m d = roll_days (y + (m - 1) div 12) ((m - 1) mod 12 + 1) d"

definition digit_char :: "nat \<Rightarrow> char" where
  "digit_char n = char_of (48 + n)"

fun String_nat :: "nat \<Rightarrow> string" where
  "String_nat n = (if n < 10 then [digit_char n] else String_nat (n div 10) @ [digit_char (n mod 10)])"

declare String_nat.simps [simp del]

definition padStart :: "nat \<Rightarrow> char \<Rightarrow> string \<Rightarrow> string" where
  "padStart k c s = replicate (k - length s) c @ s"

definition pad_num :: "nat \<Rightarrow> nat \<Rightarrow> string" where
  "pad_num k n = padStart k (CHR ''0'') (String_nat n)"

definition toISODate :: "ymd \<Rightarrow> string" where
  "toISODate dt =
     (case dt of (y, m, d) \<Rightarrow>
        (if y \<le> 9999 then pad_num 4 y else CHR ''+'' # pad_num 6 y)
        @ ''-'' @ pad_num 2 m @ ''-'' @ pad_num 2 d)"

definition digit_of :: "char \<Rightarrow> nat option" where
  "digit_of c = (let n = (of_char c :: nat) in if 48 \<le> n \<and> n \<le> 57 then Some (n - 48) else None)"

fun parse_digits :: "nat \<Rightarrow> string \<Rightarrow> nat option" where
  "parse_digits acc [] = Some acc"
| "parse_digits acc (c # cs) =
     (case digit_of c of None \<Rightarrow> None | Some v \<Rightarrow> parse_digits (acc * 10 + v) cs)"

definition parseDate :: "string \<Rightarrow> ymd option" where
  "parseDate s =
     (if length s = 10 \<and> s ! 4 = CHR ''-'' \<and> s ! 7 = CHR ''-''
      then (case (parse_digits 0 (take 4 s), parse_digits 0 (take 2 (drop 5 s)),
                  parse_digits 0 (drop 8 s)) of
              (Some y, Some m, Some d) \<Rightarrow>
                if 1 \<le> m \<and> m \<le> 12 \<and> 1 \<le> d \<and> d \<le> 31 then Some (MakeDay y m d) else None
            | _ \<Rightarrow> None)
      else None)"

text \<open>The comparison \<^verbatim>\<open><=\<close> of two strings, by character codes.\<close>

fun str_le :: "string \<Rightarrow> string \<Rightarrow> bool" where
  "str_le [] t = True"
| "str_le (c # s) [] = False"
| "str_le (c # s) (c' # t) =
     ((of_char c :: nat) < of_char c' \<or> (c = c' \<and> str_le s t))"

text \<open>Fixed-width decimal digits, the shape of the fields of an ISO date.\<close>

fun digits :: "nat \<Rightarrow> nat \<Rightarrow> string" where
  "digits 0 n = []"
| "digits (Suc k) n = digits k (n div 10) @ [digit_char (n mod 10)]"

definition valid_date :: "ymd \<Rightarrow> bool" where
  "valid_date dt = (case dt of (y, m, d) \<Rightarrow> 1 \<le> m \<and> m \<le> 12 \<and> 1 \<le> d \<and> d \<le> daysInMonth y m)"

section \<open>The platform's dates\<close>

text \<open>
  An instant of universal time is a calendar day and the time elapsed within that day (the
  example platforms count it in minutes).  What \<^verbatim>\<open>Date\<close> does is a parameter:
  \<open>Date_parse\<close> is the instant that \<^verbatim>\<open>new Date(text)\<close> reads, \<open>None\<close> for
  an invalid date; \<open>LocalTime\<close> gives the calendar day and time of day that the local
  getters (\<^verbatim>\<open>getFullYear\<close>, \<^verbatim>\<open>getMonth\<close>, \<^verbatim>\<open>getDate\<close>) see at
  an instant, in the time zone of the process; \<open>UTC_of_local\<close> gives the instant that
  the local setters make of a local day and time of day.  The date part of
  \<^verbatim>\<open>toISOString\<close> is the calendar day of the instant.
\<close>

type_synonym instant = "ymd \<times> nat"

record platform =
  Date_parse :: "string \<Rightarrow> instant option"
  LocalTime :: "instant \<Rightarrow> instant"
  UTC_of_local :: "instant \<Rightarrow> instant"

text \<open>
  A process whose time zone is UTC, and a platform that reads a date-only ISO text of a
  four-digit year as midnight UTC of that day.
\<close>

definition utc_zone :: "platform \<Rightarrow> bool" where
  "utc_zone env = ((\<forall>t. LocalTime env t = t) \<and> (\<forall>t. UTC_of_local env t = t))"

definition reads_iso_dates :: "platform \<Rightarrow> bool" where
  "reads_iso_dates env =
     (\<forall>y m d. y \<le> 9999 \<and> valid_date (y, m, d)
        \<longrightarrow> Date_parse env (toISODate (y, m, d)) = Some ((y, m, d), 0))"

text \<open>
  Two example platforms: one in UTC, and one in a zone that is always \<open>offset\<close>
  minutes behind UTC (no daylight saving), where the local day of an early instant is the
  day before.
\<close>

definition utc_platform :: platform where
  "utc_platform =
     \<lparr> Date_parse = (\<lambda>s. case parseDate s of None \<Rightarrow> None | Some dt \<Rightarrow> Some (dt, 0)),
       LocalTime = (\<lambda>t. t),
       UTC_of_local = (\<lambda>t. t) \<rparr>"

definition prev_day :: "ymd \<Rightarrow> ymd" where
  "prev_day dt =
     (case dt of (y, m, d) \<Rightarrow>
        if d > 1 then (y, m, d - 1)
        else if m > 1 then (y, m - 1, daysInMonth y (m - 1))
        else (y - 1, 12, 31))"

definition minutesPerDay :: nat where
  "minutesPerDay = 1440"

definition west_platform :: "nat \<Rightarrow> platform" where
  "west_platform offset =
     \<lparr> Date_parse = (\<lambda>s. case parseDate s of None \<Rightarrow> None | Some dt \<Rightarrow> Some (dt, 0)),
       LocalTime = (\<lambda>(dt, t). if offset \<le> t then (dt, t - offset)
                               else (prev_day dt, t + minutesPerDay - offset)),
       UTC_of_local = (\<lambda>(dt, t). if t + offset < minutesPerDay then (dt, t + offset)
                                  else (case dt of (y, m, d) \<Rightarrow>
                                          (MakeDay y m (d + 1), t + offset - minutesPerDay))) \<rparr>"

section \<open>Recurring transactions (src/core/recurring.ts)\<close>

text \<open>
  \<^verbatim>\<open>calculateNextDueDate\<close> reads the text, steps the local calendar fields with the
  local setters and prints the date part of the result in UTC.
  \<^verbatim>\<open>toISOString\<close> throws a \<^verbatim>\<open>RangeError\<close> on an invalid date; the
  functions that can throw return a sum with the error on the left.
\<close>

datatype js_error = RangeError

definition calculateNextDueDate :: "platform \<Rightarrow> string \<Rightarrow> frequency \<Rightarrow> js_error + string" where
  "calculateNextDueDate env currentDate freq =
     (case Date_parse env currentDate of
        None \<Rightarrow> Inl RangeError
      | Some t \<Rightarrow>
          (case LocalTime env t of
             ((y, m, d), timeInDay) \<Rightarrow>
               let local =
                     (case freq of
                        daily \<Rightarrow> MakeDay y m (d + 1)
                      | weekly \<Rightarrow> MakeDay y m (d + 7)
                      | monthly \<Rightarrow> MakeDay y (m + 1) d
                      | yearly \<Rightarrow> MakeDay (y + 1) m d)
               in Inr (toISODate (fst (UTC_of_local env (local, timeInDay))))))"

text \<open>The transaction that the loop body makes of an entry; \<open>uuid\<close> is its fresh id.\<close>

definition recurring_txn :: "string \<Rightarrow> RecurringTransaction \<Rightarrow> Transaction" where
  "recurring_txn uuid r =
  \<lparr> t_id = uuid, t_date = r_nextDue r, t_amount = r_amount r, t_category = r_category r,
    t_description = r_description r @ '' (recurring)'', t_type = r_type r, t_tags = None,
    t_recurring = Some True, t_recurringFrequency = Some (r_frequency r),
    t_currency = r_currency r \<rparr>"

text \<open>
  The inner loop \<^verbatim>\<open>while (recurring.nextDue <= today)\<close> on one entry:
  \<open>processed\<close> is the list \<^verbatim>\<open>processedTransactions\<close> so far, and the id of the
  next transaction is drawn by its length.  Where the next due date does not advance the
  loop does not end, and the value is \<open>None\<close>.
\<close>

partial_function (option) catch_up ::
  "platform \<Rightarrow> string \<Rightarrow> (nat \<Rightarrow> string) \<Rightarrow> RecurringTransaction \<Rightarrow> Transaction list
     \<Rightarrow> (js_error + RecurringTransaction \<times> Transaction list) option" where
  "catch_up env today uuidv4 recurring processed =
     (if str_le (r_nextDue recurring) today
      then (case calculateNextDueDate env (r_nextDue recurring) (r_frequency recurring) of
              Inl e \<Rightarrow> Some (Inl e)
            | Inr nd \<Rightarrow>
                catch_up env today uuidv4
                  (recurring\<lparr>r_lastProcessed := Some (r_nextDue recurring), r_nextDue := nd\<rparr>)
                  (processed @ [recurring_txn (uuidv4 (length processed)) recurring]))
      else Some (Inr (recurring, processed)))"

declare catch_up.simps [code]

text \<open>
  The outer loop over the recurring list, skipping paused entries.  It returns the entries
  as the loop leaves them and the transactions made.
\<close>

fun process_entries ::
  "platform \<Rightarrow> string \<Rightarrow> (nat \<Rightarrow> string) \<Rightarrow> RecurringTransaction list \<Rightarrow> Transaction list
     \<Rightarrow> (js_error + RecurringTransaction list \<times> Transaction list) option" where
  "process_entries env today uuidv4 [] processed = Some (Inr ([], processed))"
| "process_entries env today uuidv4 (recurring # rest) processed =
     (case (if \<not> r_active recurring then Some (Inr (recurring, processed))
            else catch_up env today uuidv4 recurring processed) of
        None \<Rightarrow> None
      | Some (Inl e) \<Rightarrow> Some (Inl e)
      | Some (Inr (recurring', processed1)) \<Rightarrow>
          (case process_entries env today uuidv4 rest processed1 of
             None \<Rightarrow> None
           | Some (Inl e) \<Rightarrow> Some (Inl e)
           | Some (Inr (rest', processed')) \<Rightarrow> Some (Inr (recurring' # rest', processed'))))"

record process_result =
  processed :: nat
  p_transactions :: "Transaction list"

text \<open>
  The whole call: \<open>now\<close> is the text of \<^verbatim>\<open>new Date().toISOString()\<close>.  The
  new transactions are pushed to the ledger and the document is saved only when there is
  at least one; an error leaves the file as \<open>loadData\<close> left it.
\<close>

definition processRecurringTransactions ::
  "platform \<Rightarrow> (nat \<Rightarrow> string) \<Rightarrow> string \<Rightarrow> store
     \<Rightarrow> ((js_error + process_result) \<times> store) option" where
  "processRecurringTransactions env uuidv4 now st =
     (let (data, st1) = loadData now st;
          today = splitT0 now
      in case process_entries env today uuidv4 (recurringTransactions data) [] of
           None \<Rightarrow> None
         | Some (Inl e) \<Rightarrow> Some (Inl e, st1)
         | Some (Inr (recurringList, processedTransactions)) \<Rightarrow>
             if length processedTransactions > 0
             then let (_, st2) =
                        saveData now
                          (data\<lparr>transactions := transactions data @ processedTransactions,
                                recurringTransactions := recurringList\<rparr>)
                  in Some (Inr \<lparr>processed = length processedTransactions,
                                 p_transactions = processedTransactions\<rparr>, st2)
             else Some (Inr \<lparr>processed = length processedTransactions,
                              p_transactions = processedTransactions\<rparr>, st1))"

text \<open>
  The call materializes \<open>n\<close> transactions when it returns and reports \<open>n\<close>
  transactions; \<open>materialized_dates\<close> are their dates.  An entry is not due when it
  is paused or its next due date is after today.
\<close>

definition materializes ::
  "platform \<Rightarrow> nat \<Rightarrow> (nat \<Rightarrow> string) \<Rightarrow> string \<Rightarrow> FinanceData \<Rightarrow> bool" where
  "materializes env n uuidv4 now data =
     (case processRecurringTransactions env uuidv4 now (Some data) of
        Some (Inr res, st) \<Rightarrow> processed res = n \<and> length (p_transactions res) = n
      | _ \<Rightarrow> False)"

definition materialized_dates ::
  "platform \<Rightarrow> (nat \<Rightarrow> string) \<Rightarrow> string \<Rightarrow> FinanceData \<Rightarrow> string list option" where
  "materialized_dates env uuidv4 now data =
     (case processRecurringTransactions env uuidv4 now (Some data) of
        Some (Inr res, st) \<Rightarrow> Some (map t_date (p_transactions res))
      | _ \<Rightarrow> None)"

definition not_due :: "string \<Rightarrow> RecurringTransaction \<Rightarrow> bool" where
  "not_due today e = (\<not> r_active e \<or> \<not> str_le (r_nextDue e) today)"

text \<open>Documents with one monthly entry, to exercise the properties.\<close>

definition rent :: RecurringTransaction where
  "rent = \<lparr> r_id = ''r1'', r_amount = 1200, r_type = expense, r_category = ''Home'',
            r_description = ''Rent'', r_frequency = monthly, r_startDate = ''2024-01-15'',
            r_nextDue = ''2024-01-15'', r_lastProcessed = None, r_active = True,
            r_currency = None \<rparr>"

definition rent_data :: FinanceData where
  "rent_data =
     (createEmptyFinanceData ''2024-01-15T08:00:00.000Z'')\<lparr>recurringTransactions := [rent]\<rparr>"

definition uuid_seq :: "nat \<Rightarrow> string" where
  "uuid_seq n = ''id-'' @ String_nat n"

definition november_rent :: FinanceData where
  "november_rent =
     (createEmptyFinanceData ''2024-11-01T08:00:00.000Z'')
       \<lparr>recurringTransactions :=
          [rent\<lparr>r_startDate := ''2024-11-01'', r_nextDue := ''2024-11-01''\<rparr>]\<rparr>"

section \<open>JavaScript objects used as dictionaries\<close>

text \<open>
  A plain object with string keys is the list of its own properties in insertion order,
  without repeated keys.  Reading \<^verbatim>\<open>obj[k]\<close> yields the own property when there is
  one; otherwise the lookup goes to \<^verbatim>\<open>Object.prototype\<close>, which answers for the
  names in \<open>inherited_names\<close> (with a function or an object) and has nothing for any
  other name.  Assigning a primitive value to a present key keeps the key's place and to a
  new key appends it, except that \<^verbatim>\<open>__proto__\<close> is a setter that ignores primitive
  values and creates no property.  \<^verbatim>\<open>Object.entries\<close> lists the own keys that are
  array indices (the canonical decimal text of an integer below
  \<open>2^32 - 1 = 4294967295\<close>) first, in ascending numeric order, and then every other key
  in insertion order.
\<close>

type_synonym 'v js_object = "(string \<times> 'v) list"

definition inherited_names :: "string list" where
  "inherited_names =
     [''constructor'', ''__defineGetter__'', ''__defineSetter__'', ''hasOwnProperty'',
      ''__lookupGetter__'', ''__lookupSetter__'', ''isPrototypeOf'',
      ''propertyIsEnumerable'', ''toString'', ''valueOf'', ''__proto__'',
      ''toLocaleString'']"

definition inherited_name :: "string \<Rightarrow> bool" where
  "inherited_name k = (k \<in> set inherited_names)"

datatype 'v lookup = Own 'v | Inherited | Undefined

definition obj_read :: "'v js_object \<Rightarrow> string \<Rightarrow> 'v lookup" where
  "obj_read obj k =
     (case map_of obj k of
        Some v \<Rightarrow> Own v
      | None \<Rightarrow> if inherited_name k then Inherited else Undefined)"

fun obj_set :: "'v js_object \<Rightarrow> string \<Rightarrow> 'v \<Rightarrow> 'v js_object" where
  "obj_set [] k v = [(k, v)]"
| "obj_set ((k', v') # kvs) k v =
     (if k' = k then (k, v) # kvs else (k', v') # obj_set kvs k v)"

definition obj_write :: "'v js_object \<Rightarrow> string \<Rightarrow> 'v \<Rightarrow> 'v js_object" where
  "obj_write obj k v = (if k = ''__proto__'' then obj else obj_set obj k v)"

definition canonical_numeric :: "string \<Rightarrow> bool" where
  "canonical_numeric s =
     (case parse_digits 0 s of None \<Rightarrow> False | Some n \<Rightarrow> String_nat n = s)"

definition is_array_index :: "string \<Rightarrow> bool" where
  "is_array_index s =
     (canonical_numeric s \<and>
      (length s < 10 \<or> (length s = 10 \<and> str_le s ''4294967294'')))"

definition index_value :: "string \<Rightarrow> nat" where
  "index_value s = (case parse_digits 0 s of None \<Rightarrow> 0 | Some n \<Rightarrow> n)"

definition Object_entries :: "'v js_object \<Rightarrow> (string \<times> 'v) list" where
  "Object_entries obj =
     sort_key (\<lambda>kv. index_value (fst kv)) (filter (\<lambda>kv. is_array_index (fst kv)) obj)
     @ filter (\<lambda>kv. \<not> is_array_index (fst kv)) obj"

text \<open>
  The values that end up in the spending object: a number, or something that is not a
  number (the text that \<^verbatim>\<open>+\<close> makes of an inherited function or object and an
  amount).
\<close>

datatype js_value = Num real | NotNum

section \<open>Derived read helpers (src/core/storage.ts)\<close>

text \<open>
  The clock \<^verbatim>\<open>new Date()\<close> is an instant \<open>now\<close>; months and years are compared
  in local time, on whatever the platform reads from the date texts.
\<close>

definition getCurrentMonthTransactions ::
  "platform \<Rightarrow> instant \<Rightarrow> FinanceData \<Rightarrow> Transaction list" where
  "getCurrentMonthTransactions env now data =
     (case LocalTime env now of
        ((currentYear, currentMonth, today), timeInDay) \<Rightarrow>
          filter (\<lambda>t. case Date_parse env (t_date t) of
                         None \<Rightarrow> False
                       | Some tv \<Rightarrow>
                           (case LocalTime env tv of
                              ((y, m, d), tm) \<Rightarrow> m = currentMonth \<and> y = currentYear))
                 (transactions data))"

text \<open>
  \<^verbatim>\<open>spending[c] = (spending[c] || 0) + t.amount\<close>: a missing entry counts 0, an
  entry that is not a number or an inherited value is truthy and makes the sum a text.
\<close>

definition spending_step :: "Transaction \<Rightarrow> js_value js_object \<Rightarrow> js_value js_object" where
  "spending_step t spending =
     obj_write spending (t_category t)
       (case obj_read spending (t_category t) of
          Own (Num v) \<Rightarrow> Num (v + t_amount t)
        | Own NotNum \<Rightarrow> NotNum
        | Inherited \<Rightarrow> NotNum
        | Undefined \<Rightarrow> Num (0 + t_amount t))"

definition calculateSpendingByCategory :: "Transaction list \<Rightarrow> js_value js_object" where
  "calculateSpendingByCategory txs =
     fold spending_step (filter (\<lambda>t. t_type t = expense) txs) []"

section \<open>Analytics (src/core/analytics.ts)\<close>

text \<open>
  The comparator \<^verbatim>\<open>b.amount - a.amount\<close> orders entries by descending amount and
  \<^verbatim>\<open>sort\<close> is stable.  When an amount is not a number the comparator yields
  \<^verbatim>\<open>NaN\<close> and the order of two or more entries is left to the engine:
  \<open>topCategories\<close> is \<open>None\<close> then.
\<close>

definition is_Num :: "js_value \<Rightarrow> bool" where
  "is_Num v = (case v of Num x \<Rightarrow> True | NotNum \<Rightarrow> False)"

definition num_of :: "js_value \<Rightarrow> real" where
  "num_of v = (case v of Num x \<Rightarrow> x | NotNum \<Rightarrow> 0)"

definition ranking :: "js_value js_object \<Rightarrow> (string \<times> js_value) list" where
  "ranking obj = sort_key (\<lambda>e. - num_of (snd e)) (Object_entries obj)"

record analysis =
  totalIncome :: real
  totalExpenses :: real
  netSavings :: real
  byCategory :: "js_value js_object"
  topCategories :: "(string \<times> js_value) list option"

definition analyzeSpending :: "platform \<Rightarrow> instant \<Rightarrow> FinanceData \<Rightarrow> analysis" where
  "analyzeSpending env now data =
     (let monthlyTransactions = getCurrentMonthTransactions env now data;
          totalIncome = foldl (\<lambda>sum t. sum + t_amount t) 0
                          (filter (\<lambda>t. t_type t = income) monthlyTransactions);
          totalExpenses = foldl (\<lambda>sum t. sum + t_amount t) 0
                            (filter (\<lambda>t. t_type t = expense) monthlyTransactions);
          byCategory = calculateSpendingByCategory monthlyTransactions;
          topCategories =
            (if list_all (\<lambda>e. is_Num (snd e)) byCategory \<or> length byCategory \<le> 1
             then Some (take 5 (ranking byCategory)) else None)
      in \<lparr> totalIncome = totalIncome, totalExpenses = totalExpenses,
           netSavings = totalIncome - totalExpenses, byCategory = byCategory,
           topCategories = topCategories \<rparr>)"

datatype insight_type = warning | info | tip







definition spend :: "string \<Rightarrow> string \<Rightarrow> string \<Rightarrow> real \<Rightarrow> Transaction" where
  "spend ident day category amount =
     \<lparr> t_id = ident, t_date = day, t_amount = amount, t_category = category,
       t_description = ''purchase'', t_type = expense, t_tags = None, t_recurring = None,
       t_recurringFrequency = None, t_currency = None \<rparr>"

definition one_budget_data :: "string \<Rightarrow> FinanceData" where
  "one_budget_data category =
     (createEmptyFinanceData ''2024-04-01T09:00:00.000Z'')
       \<lparr> transactions := [spend ''t1'' ''2024-04-03'' category 310,
                           spend ''t2'' ''2024-03-30'' category 75,
                           spend ''t3'' ''2024-04-09'' category 200],
         budgets := [\<lparr>b_category = category, b_limit = 500, b_spent = 0, alertThreshold = 80\<rparr>] \<rparr>"


definition mid_april :: instant where
  "mid_april = ((2024, 4, 15), 720)"


fun first_seen :: "'a list \<Rightarrow> 'a list" where
  "first_seen [] = []"
| "first_seen (x # xs) = x # filter (\<lambda>y. y \<noteq> x) (first_seen xs)"


section \<open>Verified properties\<close>

subsection \<open>Savings goals\<close>


lemma find_Some_set: "find P xs = Some x \<Longrightarrow> x \<in> set xs \<and> P x"
  by (induction xs) (auto split: if_splits)








text \<open>
  C3. For a goal of the stored document and an amount strictly greater than its
  \<open>currentAmount\<close>, \<open>withdrawFromGoal\<close> returns the failure result
  (\<open>success = false\<close>, error \<open>Insufficient funds in goal\<close>, no goal) and the stored
  document, hence the ledger and \<open>currentAmount\<close> of every goal, is exactly what it was.
\<close>

theorem withdrawFromGoal_insufficient:
  assumes "find (\<lambda>g. g_id g = goalId) (savingsGoals data) = Some g"
    and "amount > currentAmount g"
  shows "withdrawFromGoal uuid now (Some data) goalId amount note =
           (\<lparr>success = False, goal = None, error = Some ''Insufficient funds in goal''\<rparr>,
            Some data)"
  using assms by (simp add: withdrawFromGoal_def loadData_def)

theorem withdrawFromGoal_insufficient_witness:
  "find (\<lambda>g. g_id g = ''g1'') (savingsGoals vacation_data) = Some vacation_goal \<and>
   (1 :: real) > currentAmount vacation_goal \<and>
   withdrawFromGoal ''c1'' ''2024-04-02T10:00:00.000Z'' (Some vacation_data) ''g1'' 1 None =
     (\<lparr>success = False, goal = None, error = Some ''Insufficient funds in goal''\<rparr>,
      Some vacation_data)"
proof -
  have f: "find (\<lambda>g. g_id g = ''g1'') (savingsGoals vacation_data) = Some vacation_goal"
    by (simp add: vacation_data_def vacation_goal_def createGoal_def)
  have a: "(1 :: real) > currentAmount vacation_goal"
    by (simp add: vacation_goal_def createGoal_def)
  from withdrawFromGoal_insufficient[OF f a] f a show ?thesis by blast
qed

lemma find_update_first:
  "find P xs = Some x \<Longrightarrow> P y \<Longrightarrow> find P (update_first P (\<lambda>_. y) xs) = Some y"
  by (induction xs) (auto split: if_splits)

text \<open>
  C9. \<open>addContribution\<close> checks nothing about the amount: for a goal of the stored
  document and any amount (zero and negative included) the call succeeds, the goal's
  ledger gets one more entry carrying exactly that amount, and \<open>currentAmount\<close> becomes
  the previous value plus the amount.  So an amount below \<open>- currentAmount\<close> leaves a
  negative balance, and where \<open>withdrawFromGoal\<close> refuses to take out \<open>w > currentAmount\<close>,
  \<open>addContribution\<close> accepts \<open>- w\<close>.
\<close>

theorem addContribution_unvalidated:
  assumes "find (\<lambda>g. g_id g = goalId) (savingsGoals data) = Some g"
  shows "\<exists>g' data'.
           addContribution uuid now (Some data) goalId amount note =
             (\<lparr>success = True, goal = Some g', error = None\<rparr>, Some data') \<and>
           find (\<lambda>g. g_id g = goalId) (savingsGoals data') = Some g' \<and>
           contributions g' =
             contributions g @ [\<lparr>c_id = uuid, c_amount = amount, c_date = splitT0 now, c_note = note\<rparr>] \<and>
           currentAmount g' = currentAmount g + amount \<and>
           (amount < - currentAmount g \<longrightarrow> currentAmount g' < 0) \<and>
           (- amount > currentAmount g \<longrightarrow>
              \<not> success (fst (withdrawFromGoal uuid now (Some data) goalId (- amount) note)))"
proof -
  from find_Some_set[OF assms] have "g_id g = goalId" by simp
  then show ?thesis using assms
    by (simp add: addContribution_def withdrawFromGoal_def loadData_def saveData_def
                  contribute_def Let_def find_update_first)
qed

theorem addContribution_unvalidated_witness:
  "find (\<lambda>g. g_id g = ''g1'') (savingsGoals vacation_data) = Some vacation_goal \<and>
   (\<exists>g' data'.
      addContribution ''c1'' ''2024-04-02T10:00:00.000Z'' (Some vacation_data) ''g1'' (- 50) None =
        (\<lparr>success = True, goal = Some g', error = None\<rparr>, Some data') \<and>
      currentAmount g' = - 50 \<and> currentAmount g' < 0 \<and>
      \<not> success (fst (withdrawFromGoal ''c1'' ''2024-04-02T10:00:00.000Z''
                         (Some vacation_data) ''g1'' 50 None)))"
proof -
  have f: "find (\<lambda>g. g_id g = ''g1'') (savingsGoals vacation_data) = Some vacation_goal"
    by (simp add: vacation_data_def vacation_goal_def createGoal_def)
  have c: "currentAmount vacation_goal = 0"
    by (simp add: vacation_goal_def createGoal_def)
  from addContribution_unvalidated[OF f, of "''c1''" "''2024-04-02T10:00:00.000Z''" "- 50" None] f c
  show ?thesis by auto
qed

subsection \<open>Currency conversion\<close>

text \<open>
  C4. Converting between a currency code and itself, whatever the letter case of the code,
  whatever the rate table (also none) and whatever the rounding of the arithmetic, returns
  the amount itself, unrounded, and the rate 1.
\<close>

theorem convertCurrency_same:
  "convertCurrency fl x C C rates = Some \<lparr>convertedAmount = x, rate = 1\<rparr>"
  by (simp add: convertCurrency_def)

text \<open>The error of rounded operations that follow one another.\<close>

lemma fl_chain:
  assumes r: "rounded_within u fl (a * t)" and u: "0 \<le> u" and e: "0 \<le> e"
    and a: "\<bar>a - A\<bar> \<le> e * \<bar>A\<bar>"
  shows "\<bar>fl (a * t) - A * t\<bar> \<le> ((1 + e) * (1 + u) - 1) * \<bar>A * t\<bar>"
proof -
  have d: "\<bar>a * t - A * t\<bar> \<le> e * \<bar>A * t\<bar>"
  proof -
    have "\<bar>a * t - A * t\<bar> = \<bar>a - A\<bar> * \<bar>t\<bar>" by (simp add: abs_mult[symmetric] left_diff_distrib)
    also have "\<dots> \<le> e * \<bar>A\<bar> * \<bar>t\<bar>" using a by (rule mult_right_mono) simp
    finally show ?thesis by (simp add: abs_mult mult.assoc)
  qed
  have "\<bar>a * t\<bar> \<le> \<bar>A * t\<bar> + \<bar>a * t - A * t\<bar>" by linarith
  with d have "\<bar>a * t\<bar> \<le> \<bar>A * t\<bar> + e * \<bar>A * t\<bar>" by linarith
  then have m: "\<bar>a * t\<bar> \<le> (1 + e) * \<bar>A * t\<bar>" by (simp add: algebra_simps)
  have "\<bar>fl (a * t) - a * t\<bar> \<le> u * \<bar>a * t\<bar>" using r by (simp add: rounded_within_def)
  also have "\<dots> \<le> u * ((1 + e) * \<bar>A * t\<bar>)" using m u by (rule mult_left_mono)
  finally have f: "\<bar>fl (a * t) - a * t\<bar> \<le> u * ((1 + e) * \<bar>A * t\<bar>)" .
  have "\<bar>fl (a * t) - A * t\<bar> \<le> \<bar>fl (a * t) - a * t\<bar> + \<bar>a * t - A * t\<bar>" by linarith
  also have "\<dots> \<le> u * ((1 + e) * \<bar>A * t\<bar>) + e * \<bar>A * t\<bar>" using f d by (rule add_mono)
  also have "\<dots> = ((1 + e) * (1 + u) - 1) * \<bar>A * t\<bar>" by (simp add: algebra_simps)
  finally show ?thesis .
qed

lemma Math_round_err: "\<bar>Math_round c - c\<bar> \<le> 1 / 2"
proof -
  define n :: real where "n = of_int \<lfloor>c + 1 / 2\<rfloor>"
  have "n \<le> c + 1 / 2" unfolding n_def by (rule of_int_floor_le)
  moreover have "c + 1 / 2 < n + 1" unfolding n_def by linarith
  ultimately have "\<bar>n - c\<bar> \<le> 1 / 2" by linarith
  then show ?thesis unfolding Math_round_def n_def .
qed

text \<open>
  One conversion is within half a cent, and the relative error of its four roundings, of
  the exact converted amount.
\<close>

lemma leg_err:
  assumes u: "0 \<le> u" and r: "list_all (rounded_within u fl) (leg_operands fl x fr tr)"
  shows "\<bar>leg fl x fr tr - x / fr * tr\<bar> \<le> (1 + u) / 200 + ((1 + u) ^ 4 - 1) * \<bar>x / fr * tr\<bar>"
proof -
  define X where "X = x / fr * tr"
  define a where "a = fl (x / fr)"
  define b where "b = fl (a * tr)"
  define c where "c = fl (b * 100)"
  define n where "n = Math_round c"
  define y where "y = fl (n / 100)"
  define e3 where "e3 = (1 + u) ^ 3 - 1"
  from r have r1: "rounded_within u fl (x / fr)" and r2: "rounded_within u fl (a * tr)"
    and r3: "rounded_within u fl (b * 100)" and r4: "rounded_within u fl (n / 100)"
    by (simp_all add: leg_operands_def a_def b_def c_def n_def)
  have p: "1 \<le> (1 + u) ^ k" for k using u by (simp add: one_le_power)
  have e3: "0 \<le> e3" using p[of 3] by (simp add: e3_def)
  have 1: "\<bar>a - x / fr\<bar> \<le> u * \<bar>x / fr\<bar>" unfolding a_def using r1 by (simp add: rounded_within_def)
  have 2: "\<bar>b - x / fr * tr\<bar> \<le> ((1 + u) * (1 + u) - 1) * \<bar>x / fr * tr\<bar>"
    unfolding b_def by (rule fl_chain[OF r2 u u 1])
  have e2: "0 \<le> (1 + u) * (1 + u) - 1" using p[of 2] by (simp add: power2_eq_square)
  have 3: "\<bar>c - x / fr * tr * 100\<bar> \<le> ((1 + ((1 + u) * (1 + u) - 1)) * (1 + u) - 1) * \<bar>x / fr * tr * 100\<bar>"
    unfolding c_def by (rule fl_chain[OF r3 u e2 2])
  have "(1 + ((1 + u) * (1 + u) - 1)) * (1 + u) - 1 = e3"
    by (simp add: e3_def power3_eq_cube)
  with 3 have c3: "\<bar>c - 100 * X\<bar> \<le> e3 * (100 * \<bar>X\<bar>)"
    by (simp add: X_def abs_mult mult.commute)
  have 4: "\<bar>n - c\<bar> \<le> 1 / 2" unfolding n_def by (rule Math_round_err)
  have 5: "\<bar>y - n / 100\<bar> \<le> u * \<bar>n / 100\<bar>" unfolding y_def using r4 by (simp add: rounded_within_def)
  have nC: "\<bar>n - 100 * X\<bar> \<le> 1 / 2 + e3 * (100 * \<bar>X\<bar>)" using c3 4 by linarith
  then have nb: "\<bar>n\<bar> \<le> 100 * \<bar>X\<bar> + (1 / 2 + e3 * (100 * \<bar>X\<bar>))" by linarith
  have "u * \<bar>n / 100\<bar> = u * (\<bar>n\<bar> / 100)" by simp
  also have "\<dots> \<le> u * ((100 * \<bar>X\<bar> + (1 / 2 + e3 * (100 * \<bar>X\<bar>))) / 100)"
    using nb u by (intro mult_left_mono divide_right_mono) simp_all
  finally have c5: "\<bar>y - n / 100\<bar> \<le> u * ((100 * \<bar>X\<bar> + (1 / 2 + e3 * (100 * \<bar>X\<bar>))) / 100)"
    using 5 by linarith
  have 6: "\<bar>n / 100 - X\<bar> \<le> (1 / 2 + e3 * (100 * \<bar>X\<bar>)) / 100"
  proof -
    have "\<bar>n / 100 - X\<bar> = \<bar>n - 100 * X\<bar> / 100" by (simp add: field_simps)
    also have "\<dots> \<le> (1 / 2 + e3 * (100 * \<bar>X\<bar>)) / 100" using nC by (rule divide_right_mono) simp
    finally show ?thesis .
  qed
  have "\<bar>y - X\<bar> \<le> \<bar>y - n / 100\<bar> + \<bar>n / 100 - X\<bar>" by linarith
  also have "\<dots> \<le> u * ((100 * \<bar>X\<bar> + (1 / 2 + e3 * (100 * \<bar>X\<bar>))) / 100)
                    + (1 / 2 + e3 * (100 * \<bar>X\<bar>)) / 100"
    using c5 6 by (rule add_mono)
  also have "\<dots> = (1 + u) / 200 + ((1 + e3) * (1 + u) - 1) * \<bar>X\<bar>"
    by (simp add: field_simps)
  also have "(1 + e3) * (1 + u) - 1 = (1 + u) ^ 4 - 1"
    by (simp add: e3_def power4_eq_xxxx power3_eq_cube)
  finally show ?thesis
    unfolding y_def n_def c_def b_def a_def X_def leg_def .
qed

lemma rate_or_1_nonzero: "rate_or_1 tbl c \<noteq> 0"
  by (simp add: rate_or_1_def split: option.splits)

lemma convertCurrency_distinct:
  assumes "toUpperCase A \<noteq> toUpperCase B"
  shows "convertCurrency fl x A B rates =
     (let tbl = (case rates of None \<Rightarrow> DEFAULT_EXCHANGE_RATES fl | Some r \<Rightarrow> r);
          fr = rate_or_1 tbl (toUpperCase A); tr = rate_or_1 tbl (toUpperCase B)
      in Some \<lparr>convertedAmount = leg fl x fr tr,
               rate = fl (Math_round (fl (fl (tr / fr) * 10000)) / 10000)\<rparr>)"
  using assms by (simp add: convertCurrency_def js_div_def Let_def rate_or_1_nonzero leg_def)

lemma trip_err:
  fixes fr tr :: real
  assumes u: "0 \<le> u" and r: "list_all (rounded_within u fl) (round_trip_operands fl x fr tr)"
    and pos: "fr > 0" "tr > 0"
  shows "\<bar>leg fl (leg fl x fr tr) tr fr - x\<bar>
           \<le> (1 + u) * (1 + fr / tr * (1 + u) ^ 4) / 200 + ((1 + u) ^ 8 - 1) * \<bar>x\<bar>"
proof -
  define al where "al = (1 + u) / 200"
  define w where "w = (1 + u) ^ 4"
  define rho where "rho = fr / tr"
  define X where "X = x / fr * tr"
  define y where "y = leg fl x fr tr"
  define Y where "Y = y / tr * fr"
  define z where "z = leg fl y tr fr"
  from r have ra: "list_all (rounded_within u fl) (leg_operands fl x fr tr)"
    and rb: "list_all (rounded_within u fl) (leg_operands fl y tr fr)"
    by (simp_all add: round_trip_operands_def y_def)
  have w1: "1 \<le> w" unfolding w_def using u by (simp add: one_le_power)
  have al0: "0 \<le> al" using u by (simp add: al_def)
  have rho0: "0 < rho" using pos by (simp add: rho_def)
  have ly: "\<bar>y - X\<bar> \<le> al + (w - 1) * \<bar>X\<bar>"
    unfolding y_def X_def al_def w_def by (rule leg_err[OF u ra])
  have lz: "\<bar>z - Y\<bar> \<le> al + (w - 1) * \<bar>Y\<bar>"
    unfolding z_def Y_def al_def w_def by (rule leg_err[OF u rb])
  have Xr: "\<bar>X\<bar> * rho = \<bar>x\<bar>"
  proof -
    have "X * rho = x" using pos by (simp add: X_def rho_def)
    then have "\<bar>X * rho\<bar> = \<bar>x\<bar>" by simp
    then show ?thesis using rho0 by (simp add: abs_mult)
  qed
  have Yx: "\<bar>Y - x\<bar> \<le> al * rho + (w - 1) * \<bar>x\<bar>"
  proof -
    have "Y - x = (y - X) * rho" using pos by (simp add: Y_def X_def rho_def field_simps)
    then have "\<bar>Y - x\<bar> = \<bar>y - X\<bar> * rho" using rho0 by (simp add: abs_mult)
    also have "\<dots> \<le> (al + (w - 1) * \<bar>X\<bar>) * rho" using ly rho0 by (intro mult_right_mono) simp_all
    also have "\<dots> = al * rho + (w - 1) * (\<bar>X\<bar> * rho)" by (simp add: algebra_simps)
    finally show ?thesis by (simp only: Xr)
  qed
  then have Yb: "\<bar>Y\<bar> \<le> \<bar>x\<bar> + (al * rho + (w - 1) * \<bar>x\<bar>)" by linarith
  have "(w - 1) * \<bar>Y\<bar> \<le> (w - 1) * (\<bar>x\<bar> + (al * rho + (w - 1) * \<bar>x\<bar>))"
    using Yb w1 by (intro mult_left_mono) simp_all
  with lz have lz': "\<bar>z - Y\<bar> \<le> al + (w - 1) * (\<bar>x\<bar> + (al * rho + (w - 1) * \<bar>x\<bar>))" by linarith
  have "\<bar>z - x\<bar> \<le> \<bar>z - Y\<bar> + \<bar>Y - x\<bar>" by linarith
  also have "\<dots> \<le> (al + (w - 1) * (\<bar>x\<bar> + (al * rho + (w - 1) * \<bar>x\<bar>))) + (al * rho + (w - 1) * \<bar>x\<bar>)"
    using lz' Yx by (rule add_mono)
  also have "\<dots> = al * (1 + rho * w) + (w * w - 1) * \<bar>x\<bar>" by (simp add: algebra_simps)
  also have "w * w = (1 + u) ^ 8" by (simp add: w_def power_add[symmetric])
  finally have "\<bar>z - x\<bar> \<le> al * (1 + rho * w) + ((1 + u) ^ 8 - 1) * \<bar>x\<bar>" .
  then show ?thesis unfolding z_def y_def al_def rho_def w_def by (simp add: field_simps)
qed

lemma rounded_within_exact: "rounded_within 0 exact v"
  by (simp add: rounded_within_def exact_def)

lemma fl_pos:
  assumes "rounded_within u fl v" and "u < 1" and "0 < v"
  shows "0 < fl v"
proof -
  from assms(1) have e: "\<bar>fl v - v\<bar> \<le> u * \<bar>v\<bar>" by (simp add: rounded_within_def)
  from assms(2,3) have "u * v < v" by simp
  with e assms(3) show ?thesis by (simp add: abs_le_iff)
qed

lemma round_trip_bound:
  fixes rates :: "rate_table option" and fl :: "real \<Rightarrow> real"
  defines "tbl \<equiv> (case rates of None \<Rightarrow> DEFAULT_EXCHANGE_RATES fl | Some r \<Rightarrow> r)"
  assumes u: "0 \<le> u"
    and a: "rate_or_1 tbl (toUpperCase A) > 0"
    and b: "rate_or_1 tbl (toUpperCase B) > 0"
    and r: "list_all (rounded_within u fl)
              (round_trip_operands fl x (rate_or_1 tbl (toUpperCase A)) (rate_or_1 tbl (toUpperCase B)))"
  shows "pivot_consistent fl
           ((1 + u) *
              (1 + rate_or_1 tbl (toUpperCase A) / rate_or_1 tbl (toUpperCase B) * (1 + u) ^ 4) / 200
            + ((1 + u) ^ 8 - 1) * \<bar>x\<bar>) x A B rates"
proof (cases "toUpperCase A = toUpperCase B")
  case True
  have "0 \<le> (1 + u) ^ 8 - 1" using u by (simp add: one_le_power)
  then have "0 \<le> ((1 + u) ^ 8 - 1) * \<bar>x\<bar>" by simp
  moreover have "0 \<le> (1 + u) * (1 + 1 * (1 + u) ^ 4) / 200" using u by simp
  ultimately show ?thesis using True a
    by (simp add: pivot_consistent_def round_trip_def convertCurrency_def)
next
  case False
  then have F2: "toUpperCase B \<noteq> toUpperCase A" by simp
  show ?thesis
    using trip_err[OF u r a b]
    by (simp add: pivot_consistent_def round_trip_def convertCurrency_distinct[OF False]
          convertCurrency_distinct[OF F2] Let_def tbl_def)
qed

lemma supported_upper: "A \<in> set SUPPORTED_CURRENCIES \<Longrightarrow> toUpperCase A = A"
  by (auto simp: SUPPORTED_CURRENCIES_def toUpperCase_def upper_char_def)

lemma supported_default_rate:
  assumes u: "u < 1" and r: "list_all (rounded_within u fl) (map snd RATE_LITERALS)"
    and A: "A \<in> set SUPPORTED_CURRENCIES"
  shows "rate_or_1 (DEFAULT_EXCHANGE_RATES fl) A > 0 \<and>
         DEFAULT_EXCHANGE_RATES fl A = Some (rate_or_1 (DEFAULT_EXCHANGE_RATES fl) A)"
proof -
  have q: "rounded_within u fl v \<Longrightarrow> 0 < v \<Longrightarrow> 0 < fl v" for v
    using fl_pos[OF _ u] by blast
  from r have p: "0 < fl 1" "0 < fl 0.92" "0 < fl 0.79" "0 < fl 149.50" "0 < fl 1.36" "0 < fl 1.53"
          "0 < fl 0.88" "0 < fl 7.24" "0 < fl 83.12" "0 < fl 17.15" "0 < fl 4.97" "0 < fl 1320.50"
    by (simp_all add: RATE_LITERALS_def q)
  have "list_all (\<lambda>A. rate_or_1 (DEFAULT_EXCHANGE_RATES fl) A > 0 \<and>
                      DEFAULT_EXCHANGE_RATES fl A = Some (rate_or_1 (DEFAULT_EXCHANGE_RATES fl) A))
                 SUPPORTED_CURRENCIES"
    using p
    by (simp add: SUPPORTED_CURRENCIES_def DEFAULT_EXCHANGE_RATES_def RATE_LITERALS_def rate_or_1_def)
  with A show ?thesis by (simp add: list_all_iff)
qed

text \<open>
  C5, as stated: for every amount and every two supported currencies the round trip
  through \<open>convertCurrency\<close> is within two-decimal rounding tolerance of the amount.
  It fails, also in exact arithmetic: 1 KRW is 0.00 USD after rounding, and 0.00 USD is
  0 KRW.
\<close>

theorem round_trip_counterexample:
  "\<not> pivot_consistent exact (1 / 100) 1 ''KRW'' ''USD'' None"
  by (simp add: pivot_consistent_def round_trip_def convertCurrency_def toUpperCase_def
        upper_char_def DEFAULT_EXCHANGE_RATES_def RATE_LITERALS_def rate_or_1_def js_div_def
        Math_round_def exact_def Let_def)

text \<open>
  C5, amended: with the default table, for supported currencies \<open>A\<close> and \<open>B\<close> and
  an amount \<open>x\<close>, when the twelve rate literals and the eight results that the two
  conversions round are each rounded with relative error at most \<open>u < 1\<close>, the round
  trip yields a number within
  \<open>(1 + u) (1 + (rate A / rate B) (1 + u)^4) / 200 + ((1 + u)^8 - 1) |x|\<close> of \<open>x\<close>,
  where \<open>rate\<close> is the table as the machine holds it.  The first term is the cent
  rounding of the two legs, the first one magnified by the rate ratio on the way back; the
  second is the rounding of the arithmetic, which grows with the amount.
\<close>

theorem round_trip_tolerance:
  assumes "0 \<le> u" and "u < 1"
    and "A \<in> set SUPPORTED_CURRENCIES" and "B \<in> set SUPPORTED_CURRENCIES"
    and "list_all (rounded_within u fl) (map snd RATE_LITERALS)"
    and "list_all (rounded_within u fl)
           (round_trip_operands fl x (the (DEFAULT_EXCHANGE_RATES fl A))
                                     (the (DEFAULT_EXCHANGE_RATES fl B)))"
  shows "pivot_consistent fl
           ((1 + u) * (1 + the (DEFAULT_EXCHANGE_RATES fl A) / the (DEFAULT_EXCHANGE_RATES fl B)
                           * (1 + u) ^ 4) / 200
            + ((1 + u) ^ 8 - 1) * \<bar>x\<bar>) x A B None"
proof -
  from supported_default_rate[OF assms(2,5,3)] supported_default_rate[OF assms(2,5,4)]
       supported_upper[OF assms(3)] supported_upper[OF assms(4)] assms(6)
  show ?thesis
    using round_trip_bound[OF assms(1), where rates = None and fl = fl and A = A and B = B and x = x]
    by simp
qed

theorem round_trip_tolerance_witness:
  "(0::real) \<le> 1 / 1000 \<and> (1 / 1000 :: real) < 1 \<and>
   ''USD'' \<in> set SUPPORTED_CURRENCIES \<and> ''JPY'' \<in> set SUPPORTED_CURRENCIES \<and>
   list_all (rounded_within (1 / 1000) binary10) (map snd RATE_LITERALS) \<and>
   list_all (rounded_within (1 / 1000) binary10)
     (round_trip_operands binary10 12.34 (the (DEFAULT_EXCHANGE_RATES binary10 ''USD''))
                                         (the (DEFAULT_EXCHANGE_RATES binary10 ''JPY''))) \<and>
   round_trip binary10 12.34 ''USD'' ''JPY'' None = Some (3159 / 256) \<and>
   pivot_consistent binary10
     ((1 + 1 / 1000) * (1 + 1 / 149.5 * (1 + 1 / 1000) ^ 4) / 200
      + ((1 + 1 / 1000) ^ 8 - 1) * \<bar>12.34\<bar>) 12.34 ''USD'' ''JPY'' None"
proof -
  have a: "''USD'' \<in> set SUPPORTED_CURRENCIES" and b: "''JPY'' \<in> set SUPPORTED_CURRENCIES"
    by (simp_all add: SUPPORTED_CURRENCIES_def)
  have c: "the (DEFAULT_EXCHANGE_RATES binary10 ''USD'') = 1"
          "the (DEFAULT_EXCHANGE_RATES binary10 ''JPY'') = 149.5"
    by (simp_all add: DEFAULT_EXCHANGE_RATES_def RATE_LITERALS_def binary10_def)
  have l: "list_all (rounded_within (1 / 1000) binary10) (map snd RATE_LITERALS)"
    by (simp add: RATE_LITERALS_def rounded_within_def binary10_def)
  have p: "list_all (rounded_within (1 / 1000) binary10)
             (round_trip_operands binary10 12.34 (the (DEFAULT_EXCHANGE_RATES binary10 ''USD''))
                                                 (the (DEFAULT_EXCHANGE_RATES binary10 ''JPY'')))"
    unfolding c
    by (simp add: round_trip_operands_def leg_operands_def leg_def rounded_within_def
          binary10_def Math_round_def)
  have d: "round_trip binary10 12.34 ''USD'' ''JPY'' None = Some (3159 / 256)"
    by (simp add: round_trip_def convertCurrency_def toUpperCase_def upper_char_def
          DEFAULT_EXCHANGE_RATES_def RATE_LITERALS_def rate_or_1_def js_div_def Math_round_def
          binary10_def Let_def)
  have t: "pivot_consistent binary10
     ((1 + 1 / 1000) * (1 + the (DEFAULT_EXCHANGE_RATES binary10 ''USD'')
                              / the (DEFAULT_EXCHANGE_RATES binary10 ''JPY'') * (1 + 1 / 1000) ^ 4) / 200
      + ((1 + 1 / 1000) ^ 8 - 1) * \<bar>12.34\<bar>) 12.34 ''USD'' ''JPY'' None"
    by (rule round_trip_tolerance[OF _ _ a b l p]) simp_all
  from t a b l p d show ?thesis unfolding c by simp
qed

text \<open>
  C10. For currencies that differ after upper-casing, the source rate \<open>fr\<close> and the
  target rate \<open>tr\<close> used by \<open>convertCurrency\<close> are the table entries, with 1 in
  place of a missing entry or an entry 0.  So \<open>fr\<close> is never 0, both divisions by it
  yield numbers, and the call returns the rounded amount and rate, whatever the rounding
  of the arithmetic.
\<close>

theorem convertCurrency_total:
  fixes rates :: "rate_table option" and A B :: string and fl :: "real \<Rightarrow> real"
  defines "tbl \<equiv> (case rates of None \<Rightarrow> DEFAULT_EXCHANGE_RATES fl | Some r \<Rightarrow> r)"
  defines "fr \<equiv> (case tbl (toUpperCase A) of None \<Rightarrow> 1 | Some r \<Rightarrow> if r = 0 then 1 else r)"
  defines "tr \<equiv> (case tbl (toUpperCase B) of None \<Rightarrow> 1 | Some r \<Rightarrow> if r = 0 then 1 else r)"
  assumes "toUpperCase A \<noteq> toUpperCase B"
  shows "fr \<noteq> 0 \<and> js_div fl x fr = Some (fl (x / fr)) \<and> js_div fl tr fr = Some (fl (tr / fr)) \<and>
         convertCurrency fl x A B rates =
           Some \<lparr>convertedAmount = fl (Math_round (fl (fl (fl (x / fr) * tr) * 100)) / 100),
                 rate = fl (Math_round (fl (fl (tr / fr) * 10000)) / 10000)\<rparr>"
proof -
  have f: "fr = rate_or_1 tbl (toUpperCase A)" and t: "tr = rate_or_1 tbl (toUpperCase B)"
    by (simp_all add: fr_def tr_def rate_or_1_def)
  have "fr \<noteq> 0" unfolding f by (rule rate_or_1_nonzero)
  then show ?thesis
    using convertCurrency_distinct[OF assms(4), of fl x rates]
    by (simp add: js_div_def Let_def f t tbl_def leg_def)
qed

theorem convertCurrency_total_witness:
  "toUpperCase ''usd'' \<noteq> toUpperCase ''zzz'' \<and>
   convertCurrency exact 10 ''usd'' ''zzz'' (Some (map_of [(''USD'', 0)])) =
     Some \<lparr>convertedAmount = 10, rate = 1\<rparr>"
proof -
  have d: "toUpperCase ''usd'' \<noteq> toUpperCase ''zzz''"
    by (simp add: toUpperCase_def upper_char_def)
  from convertCurrency_total[OF d, where x = 10 and rates = "Some (map_of [(''USD'', 0)])"
         and fl = exact] d
  show ?thesis by (simp add: toUpperCase_def upper_char_def Math_round_def exact_def)
qed

subsection \<open>Dates and their texts\<close>

lemma digit_of_digit_char: "k < 10 \<Longrightarrow> digit_of (digit_char k) = Some k"
  by (simp add: digit_of_def digit_char_def Let_def)

lemma char_of_48: "char_of (48::nat) = CHR ''0''"
  by code_simp

lemma zero_char: "CHR ''0'' = digit_char 0"
  by (simp add: digit_char_def char_of_48)

lemma String_nat_1: "n < 10 \<Longrightarrow> String_nat n = [digit_char n]"
  by (simp add: String_nat.simps)

lemma String_nat_step: "10 \<le> n \<Longrightarrow> String_nat n = String_nat (n div 10) @ [digit_char (n mod 10)]"
  by (subst String_nat.simps) simp

lemma length_digits [simp]: "length (digits k n) = k"
  by (induction k arbitrary: n) simp_all

lemma digits_0: "digits k 0 = replicate k (CHR ''0'')"
  by (induction k) (simp_all add: zero_char replicate_append_same)

lemma pad_num_digits: "n < 10 ^ k \<Longrightarrow> 0 < k \<Longrightarrow> pad_num k n = digits k n"
proof (induction k arbitrary: n)
  case 0
  then show ?case by simp
next
  case (Suc k)
  show ?case
  proof (cases "n < 10")
    case True
    then show ?thesis
      by (simp add: pad_num_def padStart_def String_nat_1 digits_0)
  next
    case False
    then have ge: "10 \<le> n" by simp
    from Suc.prems have lt: "n div 10 < 10 ^ k" by (simp add: less_mult_imp_div_less mult.commute)
    have "0 < k"
    proof (rule ccontr)
      assume "\<not> 0 < k"
      then show False using lt ge by simp
    qed
    from Suc.IH[OF lt this] show ?thesis
      using ge by (simp add: pad_num_def padStart_def String_nat_step)
  qed
qed

lemma parse_digits_snoc:
  "parse_digits acc (xs @ [c]) =
     (case parse_digits acc xs of None \<Rightarrow> None
      | Some a \<Rightarrow> (case digit_of c of None \<Rightarrow> None | Some v \<Rightarrow> Some (a * 10 + v)))"
  by (induction xs arbitrary: acc) (simp_all split: option.splits)

lemma parse_digits_digits: "n < 10 ^ k \<Longrightarrow> parse_digits 0 (digits k n) = Some n"
proof (induction k arbitrary: n)
  case 0
  then show ?case by simp
next
  case (Suc k)
  then have "n div 10 < 10 ^ k" by (simp add: less_mult_imp_div_less mult.commute)
  from Suc.IH[OF this] show ?case
    by (simp add: parse_digits_snoc digit_of_digit_char)
qed

lemma daysInMonth_bounds: "28 \<le> daysInMonth y m" "daysInMonth y m \<le> 31"
  by (simp_all add: daysInMonth_def)

lemma roll_days_id: "d \<le> daysInMonth y m \<Longrightarrow> roll_days y m d = (y, m, d)"
  by (subst roll_days.simps) simp

lemma MakeDay_valid_id: "valid_date (y, m, d) \<Longrightarrow> MakeDay y m d = (y, m, d)"
proof -
  assume v: "valid_date (y, m, d)"
  then have "(m - 1) div 12 = 0" "(m - 1) mod 12 + 1 = m" by (auto simp: valid_date_def)
  then show ?thesis using v by (simp add: MakeDay_def roll_days_id valid_date_def)
qed

lemma toISODate_digits:
  "y \<le> 9999 \<Longrightarrow> m < 100 \<Longrightarrow> d < 100 \<Longrightarrow>
   toISODate (y, m, d) = digits 4 y @ ''-'' @ digits 2 m @ ''-'' @ digits 2 d"
  by (simp add: toISODate_def pad_num_digits)

lemma parseDate_toISODate:
  assumes "y \<le> 9999" "1 \<le> m" "m \<le> 12" "1 \<le> d" "d \<le> 31"
  shows "parseDate (toISODate (y, m, d)) = Some (MakeDay y m d)"
proof -
  have s: "toISODate (y, m, d) = digits 4 y @ ''-'' @ digits 2 m @ ''-'' @ digits 2 d"
    using assms by (intro toISODate_digits) simp_all
  have p: "parse_digits 0 (digits 4 y) = Some y" "parse_digits 0 (digits 2 m) = Some m"
          "parse_digits 0 (digits 2 d) = Some d"
    using assms by (simp_all add: parse_digits_digits)
  show ?thesis
    unfolding s parseDate_def using p assms by (simp add: nth_append)
qed

lemma of_char_digit_char: "a < 10 \<Longrightarrow> (of_char (digit_char a) :: nat) = 48 + a"
  by (simp add: digit_char_def)

lemma digit_char_inj: "a < 10 \<Longrightarrow> b < 10 \<Longrightarrow> digit_char a = digit_char b \<longleftrightarrow> a = b"
proof
  assume "a < 10" "b < 10" "digit_char a = digit_char b"
  then have "(of_char (digit_char a) :: nat) = of_char (digit_char b)" by simp
  with \<open>a < 10\<close> \<open>b < 10\<close> show "a = b" by (simp add: of_char_digit_char)
qed simp

lemma str_le_digit_cons:
  "a < 10 \<Longrightarrow> b < 10 \<Longrightarrow>
   str_le (digit_char a # r) (digit_char b # r') = (a < b \<or> (a = b \<and> str_le r r'))"
  by (simp add: of_char_digit_char digit_char_inj)

lemma div_mod_less_iff:
  fixes n n' :: nat
  shows "n < n' \<longleftrightarrow> n div 10 < n' div 10 \<or> (n div 10 = n' div 10 \<and> n mod 10 < n' mod 10)"
proof -
  define q r q' r' where "q = n div 10" and "r = n mod 10" and "q' = n' div 10" and "r' = n' mod 10"
  have "n = 10 * q + r" "n' = 10 * q' + r'" "r < 10" "r' < 10"
    by (simp_all add: q_def r_def q'_def r'_def)
  then have "n < n' \<longleftrightarrow> q < q' \<or> (q = q' \<and> r < r')" by linarith
  then show ?thesis by (simp only: q_def r_def q'_def r'_def)
qed

lemma div_mod_eq_iff:
  fixes n n' :: nat
  shows "n = n' \<longleftrightarrow> n div 10 = n' div 10 \<and> n mod 10 = n' mod 10"
  by (metis div_mult_mod_eq)

lemma str_le_digits:
  "n < 10 ^ k \<Longrightarrow> n' < 10 ^ k \<Longrightarrow>
   str_le (digits k n @ r) (digits k n' @ r') = (n < n' \<or> (n = n' \<and> str_le r r'))"
proof (induction k arbitrary: n n' r r')
  case 0
  then show ?case by simp
next
  case (Suc k)
  then have l: "n div 10 < 10 ^ k" "n' div 10 < 10 ^ k"
    by (simp_all add: less_mult_imp_div_less mult.commute)
  have c: "str_le (digit_char (n mod 10) # r) (digit_char (n' mod 10) # r') =
             (n mod 10 < n' mod 10 \<or> (n mod 10 = n' mod 10 \<and> str_le r r'))"
    by (rule str_le_digit_cons) simp_all
  have "str_le (digits (Suc k) n @ r) (digits (Suc k) n' @ r') =
        str_le (digits k (n div 10) @ (digit_char (n mod 10) # r))
               (digits k (n' div 10) @ (digit_char (n' mod 10) # r'))"
    by simp
  also have "\<dots> =
        (n div 10 < n' div 10 \<or>
           (n div 10 = n' div 10 \<and>
            (n mod 10 < n' mod 10 \<or> (n mod 10 = n' mod 10 \<and> str_le r r'))))"
    unfolding Suc.IH[OF l] c ..
  also have "\<dots> = (n < n' \<or> (n = n' \<and> str_le r r'))"
    using div_mod_less_iff[of n n'] div_mod_eq_iff[of n n'] by blast
  finally show ?case .
qed

lemma str_le_dash: "str_le (CHR ''-'' # r) (CHR ''-'' # r') = str_le r r'"
  by simp

lemma str_le_toISODate:
  assumes "y \<le> 9999" "y' \<le> 9999" "m < 100" "m' < 100" "d < 100" "d' < 100"
  shows "str_le (toISODate (y, m, d)) (toISODate (y', m', d')) =
           (y < y' \<or> (y = y' \<and> (m < m' \<or> (m = m' \<and> d \<le> d'))))"
proof -
  have d2: "str_le (digits 2 d) (digits 2 d') = (d \<le> d')"
    using str_le_digits[of d 2 d' "[]" "[]"] assms by auto
  have m2: "str_le (digits 2 m @ ''-'' @ digits 2 d) (digits 2 m' @ ''-'' @ digits 2 d') =
              (m < m' \<or> (m = m' \<and> d \<le> d'))"
    using str_le_digits[of m 2 m' "''-'' @ digits 2 d" "''-'' @ digits 2 d'"] assms d2
    by simp
  have "str_le (digits 4 y @ ''-'' @ digits 2 m @ ''-'' @ digits 2 d)
               (digits 4 y' @ ''-'' @ digits 2 m' @ ''-'' @ digits 2 d') =
          (y < y' \<or> (y = y' \<and> (m < m' \<or> (m = m' \<and> d \<le> d'))))"
    using str_le_digits[of y 4 y' "''-'' @ digits 2 m @ ''-'' @ digits 2 d"
                         "''-'' @ digits 2 m' @ ''-'' @ digits 2 d'"] assms m2
    by simp
  then show ?thesis using assms by (simp add: toISODate_digits)
qed

subsection \<open>Recurring transactions\<close>

lemma catch_up_step:
  "str_le (r_nextDue r) today \<Longrightarrow>
   calculateNextDueDate env (r_nextDue r) (r_frequency r) = Inr nd \<Longrightarrow>
   catch_up env today u r p =
     catch_up env today u (r\<lparr>r_lastProcessed := Some (r_nextDue r), r_nextDue := nd\<rparr>)
       (p @ [recurring_txn (u (length p)) r])"
  by (subst catch_up.simps) simp

lemma catch_up_stop:
  "\<not> str_le (r_nextDue r) today \<Longrightarrow> catch_up env today u r p = Some (Inr (r, p))"
  by (subst catch_up.simps) simp

lemma MakeDay_months:
  assumes "1 \<le> m" "d \<le> 28"
  shows "MakeDay y (m + k) d = (y + (m + k - 1) div 12, (m + k - 1) mod 12 + 1, d)"
proof -
  have "d \<le> daysInMonth (y + (m + k - 1) div 12) ((m + k - 1) mod 12 + 1)"
    using assms(2) daysInMonth_bounds(1)[of "y + (m + k - 1) div 12" "(m + k - 1) mod 12 + 1"]
    by linarith
  then show ?thesis by (simp add: MakeDay_def roll_days_id)
qed

lemma month_succ:
  fixes q :: nat
  shows "q div 12 + (q mod 12 + 1) div 12 = (q + 1) div 12"
    and "(q mod 12 + 1) mod 12 = (q + 1) mod 12"
proof -
  show "(q mod 12 + 1) mod 12 = (q + 1) mod 12" by (simp add: mod_Suc_eq)
  have "(q + 1) div 12 = (q div 12 * 12 + (q mod 12 + 1)) div 12" by simp
  also have "\<dots> = q div 12 + (q mod 12 + 1) div 12"
    by (simp only: div_mult_self3 add.commute[of "q div 12 * 12"])
  finally show "q div 12 + (q mod 12 + 1) div 12 = (q + 1) div 12" by simp
qed

lemma monthly_step:
  assumes "1 \<le> m" "m \<le> 12" "1 \<le> d" "d \<le> 28" "y + (m + k - 1) div 12 \<le> 9999"
    and tz: "utc_zone env" and rd: "reads_iso_dates env"
  shows "calculateNextDueDate env (toISODate (MakeDay y (m + k) d)) monthly =
           Inr (toISODate (MakeDay y (m + (k + 1)) d))"
proof -
  define q where "q = m + k - 1"
  define Y where "Y = y + q div 12"
  define M where "M = q mod 12 + 1"
  have cur: "MakeDay y (m + k) d = (Y, M, d)"
    using MakeDay_months[OF assms(1,4), of y k] by (simp add: Y_def M_def q_def)
  have M: "1 \<le> M" "M \<le> 12" by (simp_all add: M_def)
  have v: "valid_date (Y, M, d)"
    using M assms(3,4) daysInMonth_bounds(1)[of Y M] by (simp add: valid_date_def)
  have "d \<le> 31" using assms(4) by simp
  have "Y \<le> 9999" using assms(5) by (simp add: Y_def q_def)
  with rd v have p: "Date_parse env (toISODate (Y, M, d)) = Some ((Y, M, d), 0)"
    by (simp add: reads_iso_dates_def)
  from tz have z: "LocalTime env t = t" "UTC_of_local env t = t" for t
    unfolding utc_zone_def by blast+
  have q1: "m + (k + 1) - 1 = q + 1" using assms(1) by (simp add: q_def)
  have a: "MakeDay Y (M + 1) d = (Y + M div 12, M mod 12 + 1, d)"
    using MakeDay_months[OF M(1) assms(4), of Y 1] by simp
  have b: "MakeDay y (m + (k + 1)) d = (y + (q + 1) div 12, (q + 1) mod 12 + 1, d)"
    using MakeDay_months[OF assms(1,4), of y "k + 1"] unfolding q1 .
  have c: "Y + M div 12 = y + (q + 1) div 12" "M mod 12 = (q + 1) mod 12"
    using month_succ[of q] unfolding Y_def M_def by linarith+
  have nx: "MakeDay Y (M + 1) d = MakeDay y (m + (k + 1)) d"
    unfolding a b c ..
  have "calculateNextDueDate env (toISODate (Y, M, d)) monthly =
          Inr (toISODate (MakeDay Y (M + 1) d))"
    by (simp add: calculateNextDueDate_def p z)
  then show ?thesis unfolding cur nx .
qed

lemma div_mod_12_le_iff:
  fixes a b :: nat
  shows "(a div 12 < b div 12 \<or> (a div 12 = b div 12 \<and> a mod 12 \<le> b mod 12)) \<longleftrightarrow> a \<le> b"
proof -
  define q r q' r' where "q = a div 12" and "r = a mod 12" and "q' = b div 12" and "r' = b mod 12"
  have "a = 12 * q + r" "b = 12 * q' + r'" "r < 12" "r' < 12"
    by (simp_all add: q_def r_def q'_def r'_def)
  then have "(q < q' \<or> (q = q' \<and> r \<le> r')) \<longleftrightarrow> a \<le> b" by linarith
  then show ?thesis by (simp only: q_def r_def q'_def r'_def)
qed

lemma monthly_order:
  assumes "1 \<le> m" "m \<le> 12" "d \<le> 28" "y \<le> 9998" "j \<le> 4" "k \<le> 4"
  shows "str_le (toISODate (MakeDay y (m + j) d)) (toISODate (MakeDay y (m + k) d)) = (j \<le> k)"
proof -
  have b: "y + (m + i - 1) div 12 \<le> 9999" if "i \<le> 4" for i
  proof -
    have "m + i - 1 < 24" using assms(2) that by simp
    then have "(m + i - 1) div 12 \<le> 1" by simp
    with assms(4) show ?thesis by simp
  qed
  have mm: "(m + i - 1) mod 12 + 1 < 100" for i
    using mod_less_divisor[of 12 "m + i - 1"] by simp
  have d100: "d < 100" using assms(3) by simp
  have "str_le (toISODate (MakeDay y (m + j) d)) (toISODate (MakeDay y (m + k) d)) =
          ((m + j - 1) div 12 < (m + k - 1) div 12 \<or>
           ((m + j - 1) div 12 = (m + k - 1) div 12 \<and> (m + j - 1) mod 12 \<le> (m + k - 1) mod 12))"
    unfolding MakeDay_months[OF assms(1,3)]
              str_le_toISODate[OF b[OF assms(5)] b[OF assms(6)] mm mm d100 d100]
    by auto
  also have "\<dots> = (m + j - 1 \<le> m + k - 1)" by (rule div_mod_12_le_iff)
  also have "\<dots> = (j \<le> k)" using assms(1) by auto
  finally show ?thesis .
qed

lemma catch_up_three_months:
  assumes ym: "y \<le> 9998" "1 \<le> m" "m \<le> 12" "1 \<le> d" "d \<le> 28"
    and fr: "r_frequency r = monthly"
    and nd: "r_nextDue r = toISODate (y, m, d)"
    and td: "today = toISODate (MakeDay y (m + 3) d)"
    and tz: "utc_zone env" and rd: "reads_iso_dates env"
  shows "\<exists>r' txs. catch_up env today u r p = Some (Inr (r', p @ txs)) \<and>
           map t_date txs = map (\<lambda>k. toISODate (MakeDay y (m + k) d)) [0, 1, 2, 3] \<and>
           r_nextDue r' = toISODate (MakeDay y (m + 4) d) \<and>
           r_lastProcessed r' = Some today \<and>
           \<not> str_le (r_nextDue r') today"
proof -
  define D where "D k = toISODate (MakeDay y (m + k) d)" for k
  have d0: "toISODate (y, m, d) = D 0"
  proof -
    have "valid_date (y, m, d)"
      using ym daysInMonth_bounds(1)[of y m] by (simp add: valid_date_def)
    then show ?thesis by (simp add: D_def MakeDay_valid_id)
  qed
  have yb: "y + (m + k - 1) div 12 \<le> 9999" if "k \<le> 4" for k
  proof -
    have "m + k - 1 < 24" using ym(3) that by simp
    then have "(m + k - 1) div 12 \<le> 1" by simp
    with ym(1) show ?thesis by simp
  qed
  have step: "calculateNextDueDate env (D k) monthly = Inr (D k')" if "k \<le> 4" "k' = k + 1" for k k'
    unfolding D_def that(2) by (rule monthly_step[OF ym(2-5) yb[OF that(1)] tz rd])
  have ord: "str_le (D j) today = (j \<le> 3)" if "j \<le> 4" for j
    unfolding D_def td by (rule monthly_order[OF ym(2,3,5,1) that]) simp
  define r1 where "r1 = r\<lparr>r_lastProcessed := Some (D 0), r_nextDue := D 1\<rparr>"
  define r2 where "r2 = r1\<lparr>r_lastProcessed := Some (D 1), r_nextDue := D 2\<rparr>"
  define r3 where "r3 = r2\<lparr>r_lastProcessed := Some (D 2), r_nextDue := D 3\<rparr>"
  define r4 where "r4 = r3\<lparr>r_lastProcessed := Some (D 3), r_nextDue := D 4\<rparr>"
  define t0 where "t0 = recurring_txn (u (length p)) r"
  define t1 where "t1 = recurring_txn (u (length (p @ [t0]))) r1"
  define t2 where "t2 = recurring_txn (u (length ((p @ [t0]) @ [t1]))) r2"
  define t3 where "t3 = recurring_txn (u (length (((p @ [t0]) @ [t1]) @ [t2]))) r3"
  have n: "r_nextDue r = D 0" "r_nextDue r1 = D 1" "r_nextDue r2 = D 2" "r_nextDue r3 = D 3"
          "r_nextDue r4 = D 4"
    by (simp_all add: nd d0 r1_def r2_def r3_def r4_def)
  have f: "r_frequency r1 = monthly" "r_frequency r2 = monthly" "r_frequency r3 = monthly"
    by (simp_all add: fr r1_def r2_def r3_def)
  have s0: "calculateNextDueDate env (D 0) monthly = Inr (D 1)" by (rule step) simp_all
  have s1: "calculateNextDueDate env (D 1) monthly = Inr (D 2)" by (rule step) simp_all
  have s2: "calculateNextDueDate env (D 2) monthly = Inr (D 3)" by (rule step) simp_all
  have s3: "calculateNextDueDate env (D 3) monthly = Inr (D 4)" by (rule step) simp_all
  have o: "str_le (D 0) today" "str_le (D 1) today" "str_le (D 2) today" "str_le (D 3) today"
          "\<not> str_le (D 4) today"
    by (simp_all add: ord)
  have "catch_up env today u r p = catch_up env today u r1 (p @ [t0])"
    unfolding r1_def t0_def n(1)[symmetric]
    by (rule catch_up_step) (simp_all only: n fr o s0)
  also have "\<dots> = catch_up env today u r2 ((p @ [t0]) @ [t1])"
    unfolding r2_def t1_def n(2)[symmetric]
    by (rule catch_up_step) (simp_all only: n f o s1)
  also have "\<dots> = catch_up env today u r3 (((p @ [t0]) @ [t1]) @ [t2])"
    unfolding r3_def t2_def n(3)[symmetric]
    by (rule catch_up_step) (simp_all only: n f o s2)
  also have "\<dots> = catch_up env today u r4 ((((p @ [t0]) @ [t1]) @ [t2]) @ [t3])"
    unfolding r4_def t3_def n(4)[symmetric]
    by (rule catch_up_step) (simp_all only: n f o s3)
  also have "\<dots> = Some (Inr (r4, (((p @ [t0]) @ [t1]) @ [t2]) @ [t3]))"
    by (rule catch_up_stop) (simp only: n o not_False_eq_True)
  finally have res: "catch_up env today u r p = Some (Inr (r4, p @ [t0, t1, t2, t3]))" by simp
  have dates: "map t_date [t0, t1, t2, t3] = map D [0, 1, 2, 3]"
    by (simp add: t0_def t1_def t2_def t3_def recurring_txn_def n)
  have lp: "r_lastProcessed r4 = Some today"
    by (simp add: r4_def td D_def)
  have "\<not> str_le (r_nextDue r4) today" by (simp only: n o not_False_eq_True)
  with res dates lp n(5) show ?thesis unfolding D_def by blast
qed

lemma utc_platform_zone: "utc_zone utc_platform"
  by (simp add: utc_zone_def utc_platform_def)

lemma utc_platform_reads: "reads_iso_dates utc_platform"
proof -
  have "Date_parse utc_platform (toISODate (y, m, d)) = Some ((y, m, d), 0)"
    if "y \<le> 9999" "valid_date (y, m, d)" for y m d
  proof -
    from that(2) have v: "1 \<le> m" "m \<le> 12" "1 \<le> d" "d \<le> 31"
      using daysInMonth_bounds(2)[of y m] by (auto simp: valid_date_def)
    from parseDate_toISODate[OF that(1) v] show ?thesis
      by (simp add: utc_platform_def MakeDay_valid_id[OF that(2)])
  qed
  then show ?thesis unfolding reads_iso_dates_def by blast
qed

lemma process_entries_skip:
  "list_all (not_due today) es \<Longrightarrow> process_entries env today u es p = Some (Inr (es, p))"
  by (induction es) (auto simp: not_due_def catch_up_stop)

lemma process_entries_append_skip:
  "list_all (not_due today) pre \<Longrightarrow>
   process_entries env today u (pre @ rest) p =
     (case process_entries env today u rest p of
        None \<Rightarrow> None
      | Some (Inl e) \<Rightarrow> Some (Inl e)
      | Some (Inr (rest', p')) \<Rightarrow> Some (Inr (pre @ rest', p')))"
  by (induction pre) (auto simp: not_due_def catch_up_stop split: option.splits sum.splits)

text \<open>
  C2, as stated: a monthly entry whose start date is exactly three calendar months before
  today yields exactly 3 transactions in one call.  It fails: the loop runs while
  \<open>nextDue \<le> today\<close>, so the occurrence dated today is materialized as well, and in
  a process in UTC an entry started on 2024-01-15 and processed on 2024-04-15 yields 4
  transactions.
\<close>

theorem three_months_counterexample:
  "\<not> materializes utc_platform 3 uuid_seq ''2024-04-15T12:00:00.000Z'' rent_data"
  by code_simp

text \<open>
  C2, amended: in a process whose time zone is UTC and whose \<^verbatim>\<open>Date\<close> reads a
  \<^verbatim>\<open>YYYY-MM-DD\<close> text as midnight UTC of that day, take a document whose
  recurring list holds an active monthly entry whose start date (equal to \<open>nextDue\<close>)
  has a year up to 9998 and a day of month from 1 to 28 and lies exactly three calendar
  months before today, and whose other recurring entries are paused or not yet due.  One
  call of \<open>processRecurringTransactions\<close> materializes exactly 4 transactions, dated
  at the start date, one and two months later and today, appends them to the ledger,
  keeps the other entries, and leaves \<open>nextDue\<close> one month after today, strictly
  after today.
\<close>

theorem three_months_catch_up:
  assumes "utc_zone env" and "reads_iso_dates env"
    and "y \<le> 9998" "1 \<le> m" "m \<le> 12" "1 \<le> d" "d \<le> 28"
    and "r_active r" "r_frequency r = monthly"
    and "r_startDate r = toISODate (y, m, d)" "r_nextDue r = r_startDate r"
    and "splitT0 now = toISODate (MakeDay y (m + 3) d)"
    and "recurringTransactions data = pre @ [r] @ post"
    and "list_all (not_due (splitT0 now)) (pre @ post)"
  shows "materializes env 4 uuidv4 now data \<and>
         (\<exists>res data' r'.
            processRecurringTransactions env uuidv4 now (Some data) = Some (Inr res, Some data') \<and>
            processed res = 4 \<and>
            map t_date (p_transactions res) =
              [toISODate (y, m, d), toISODate (MakeDay y (m + 1) d),
               toISODate (MakeDay y (m + 2) d), splitT0 now] \<and>
            transactions data' = transactions data @ p_transactions res \<and>
            recurringTransactions data' = pre @ [r'] @ post \<and>
            r_nextDue r' = toISODate (MakeDay y (m + 4) d) \<and>
            \<not> str_le (r_nextDue r') (splitT0 now))"
proof -
  have nd: "r_nextDue r = toISODate (y, m, d)" using assms(10,11) by simp
  have v: "valid_date (y, m, d)"
    using assms(4-7) daysInMonth_bounds(1)[of y m] by (simp add: valid_date_def)
  from assms(14) have sk: "list_all (not_due (splitT0 now)) pre" "list_all (not_due (splitT0 now)) post"
    by simp_all
  from catch_up_three_months[OF assms(3-7) assms(9) nd assms(12) assms(1,2), of uuidv4 "[]"]
  obtain r' txs where c: "catch_up env (splitT0 now) uuidv4 r [] = Some (Inr (r', txs))"
    and dts: "map t_date txs = map (\<lambda>k. toISODate (MakeDay y (m + k) d)) [0, 1, 2, 3]"
    and n': "r_nextDue r' = toISODate (MakeDay y (m + 4) d)"
    and a: "\<not> str_le (r_nextDue r') (splitT0 now)"
    by auto
  from dts have len: "length txs = 4" using length_map[of t_date txs] by simp
  from len have ne: "txs \<noteq> []" by auto
  have pe: "process_entries env (splitT0 now) uuidv4 (pre @ [r] @ post) [] =
              Some (Inr (pre @ [r'] @ post, txs))"
    using assms(8) c
    by (simp add: process_entries_append_skip[OF sk(1)] process_entries_skip[OF sk(2)])
  have p: "processRecurringTransactions env uuidv4 now (Some data) =
             Some (Inr \<lparr>processed = 4, p_transactions = txs\<rparr>,
                   Some (data\<lparr>transactions := transactions data @ txs,
                               recurringTransactions := pre @ [r'] @ post, lastUpdated := now\<rparr>))"
    using assms(13) pe len ne
    by (simp add: processRecurringTransactions_def loadData_def saveData_def Let_def)
  have d0: "MakeDay y (m + 0) d = (y, m, d)" using v by (simp add: MakeDay_valid_id)
  show ?thesis
    using p dts n' a len assms(12) d0
    by (simp add: materializes_def)
qed

theorem three_months_catch_up_witness:
  "utc_zone utc_platform \<and> reads_iso_dates utc_platform \<and>
   r_startDate rent = toISODate (2024, 1, 15) \<and>
   splitT0 ''2024-04-15T12:00:00.000Z'' = toISODate (MakeDay 2024 (1 + 3) 15) \<and>
   recurringTransactions rent_data = [] @ [rent] @ [] \<and>
   materializes utc_platform 4 uuid_seq ''2024-04-15T12:00:00.000Z'' rent_data"
proof -
  have s: "r_startDate rent = toISODate (2024, 1, 15)" by code_simp
  have t: "splitT0 ''2024-04-15T12:00:00.000Z'' = toISODate (MakeDay 2024 (1 + 3) 15)" by code_simp
  have r: "r_active rent" "r_frequency rent = monthly" "r_nextDue rent = r_startDate rent"
    "recurringTransactions rent_data = [] @ [rent] @ []"
    by (simp_all add: rent_def rent_data_def createEmptyFinanceData_def)
  have e: "list_all (not_due (splitT0 ''2024-04-15T12:00:00.000Z'')) ([] @ [])" by simp
  from three_months_catch_up[OF utc_platform_zone utc_platform_reads _ _ _ _ _ r(1,2) s r(3) t r(4) e,
         of uuid_seq]
       s t r(4) utc_platform_zone utc_platform_reads
  show ?thesis by simp
qed

text \<open>
  Outside UTC the count depends on the zone, because the month is stepped on the local
  date: five hours behind UTC an entry started on 2024-11-01 and processed on 2025-02-01
  yields the 3 transactions dated 2024-11-01, 2024-12-02 and 2025-01-02.
\<close>

lemma west_zone_three_months:
  "materialized_dates (west_platform 300) uuid_seq ''2025-02-01T12:00:00.000Z'' november_rent
     = Some [''2024-11-01'', ''2024-12-02'', ''2025-01-02'']"
  by code_simp

subsection \<open>Spending analytics and budget alerts\<close>

lemma set_first_seen [simp]: "set (first_seen xs) = set xs"
  by (induction xs) auto

lemma distinct_first_seen [simp]: "distinct (first_seen xs)"
  by (induction xs) auto




lemma map_of_map_keys:
  "map_of (map (\<lambda>c. (c, f c)) ks) k = (if k \<in> set ks then Some (f k) else None)"
  by (induction ks) auto












text \<open>
  What becomes of the spending object for a category that is an inherited name: for
  \<open>constructor\<close> its entry is not a number, for \<^verbatim>\<open>__proto__\<close> there is no
  entry at all.
\<close>

lemma inherited_category_spending:
  "byCategory (analyzeSpending utc_platform mid_april (one_budget_data ''constructor''))
     = [(''constructor'', NotNum)] \<and>
   byCategory (analyzeSpending utc_platform mid_april (one_budget_data ''__proto__'')) = []"
  by code_simp
















end
